theory Spec2Isabelle
  imports Main "HOL-Library.Sublist"
begin

section \<open>Strings of the JavaScript runtime\<close>

text \<open>
  The service is a single Express application (\<^verbatim>\<open>src/index.ts\<close>). Strings are modelled
  as \<^typ>\<open>string\<close>; a \<^typ>\<open>char\<close> stands for one code unit in the range U+0000 to
  U+00FF (ASCII and Latin-1). On that range the functions below agree with the
  JavaScript runtime: \<^verbatim>\<open>toLowerCase\<close> maps A-Z and the upper-case Latin-1 letters
  (U+00C0 to U+00DE without the multiplication sign U+00D7) to the letter 32 places
  higher and leaves every other code unit alone.
\<close>

definition is_digit :: "char \<Rightarrow> bool" where
  "is_digit c = (let n = (of_char c :: nat) in 48 \<le> n \<and> n \<le> 57)"

definition is_lower :: "char \<Rightarrow> bool" where
  "is_lower c = (let n = (of_char c :: nat) in 97 \<le> n \<and> n \<le> 122)"

definition is_upper :: "char \<Rightarrow> bool" where
  "is_upper c = (let n = (of_char c :: nat) in 65 \<le> n \<and> n \<le> 90)"

definition is_upper_latin1 :: "char \<Rightarrow> bool" where
  "is_upper_latin1 c = (let n = (of_char c :: nat) in 192 \<le> n \<and> n \<le> 222 \<and> n \<noteq> 215)"

definition lower_char :: "char \<Rightarrow> char" where
  "lower_char c =
     (if is_upper c \<or> is_upper_latin1 c then char_of (of_char c + (32::nat)) else c)"

definition toLowerCase :: "string \<Rightarrow> string" where
  "toLowerCase s = map lower_char s"

text \<open>
  \<^verbatim>\<open>s.replace(/[cls]+/g, rep)\<close>: scanning from the left, every maximal run of
  characters of the class \<open>cls\<close> is replaced by one copy of \<open>rep\<close>; the other characters
  are copied.
\<close>

function replace_runs :: "(char \<Rightarrow> bool) \<Rightarrow> string \<Rightarrow> string \<Rightarrow> string" where
  "replace_runs cls rep [] = []"
| "replace_runs cls rep (c # cs) =
     (if cls c then rep @ replace_runs cls rep (dropWhile cls cs)
      else c # replace_runs cls rep cs)"
  by pat_completeness auto
termination
  by (relation "measure (\<lambda>(cls, rep, s). length s)")
     (auto simp: le_imp_less_Suc length_dropWhile_le)

text \<open>The character class \<^verbatim>\<open>[^a-zA-Z0-9\/]\<close> of the destination callback.\<close>

definition not_alnum_slash :: "char \<Rightarrow> bool" where
  "not_alnum_slash c = (\<not> (is_lower c \<or> is_upper c \<or> is_digit c \<or> c = CHR ''/''))"

text \<open>The character class \<^verbatim>\<open>[^a-zA-Z0-9]\<close> of the filename callback.\<close>

definition not_alnum :: "char \<Rightarrow> bool" where
  "not_alnum c = (\<not> (is_lower c \<or> is_upper c \<or> is_digit c))"

text \<open>
  \<^verbatim>\<open>const normalizedPath = userPath.toLowerCase().replace(/[^a-zA-Z0-9\/]+/g, "/")\<close>
\<close>

definition normalizedPath :: "string \<Rightarrow> string" where
  "normalizedPath userPath = replace_runs not_alnum_slash ''/'' (toLowerCase userPath)"

text \<open>\<^verbatim>\<open>s.split(sep)\<close> for a one-character separator.\<close>

fun split_on :: "char \<Rightarrow> string \<Rightarrow> string list" where
  "split_on sep [] = [[]]"
| "split_on sep (c # cs) =
     (if c = sep then [] # split_on sep cs
      else (case split_on sep cs of
              [] \<Rightarrow> [[c]]
            | x # xs \<Rightarrow> (c # x) # xs))"

text \<open>\<^verbatim>\<open>parts.join(sep)\<close>\<close>

fun join_with :: "string \<Rightarrow> string list \<Rightarrow> string" where
  "join_with sep [] = []"
| "join_with sep [x] = x"
| "join_with sep (x # y # ys) = x @ sep @ join_with sep (y # ys)"

text \<open>
  \<^verbatim>\<open>s.replace(pat, rep)\<close> with a string pattern: the first occurrence of \<open>pat\<close> is
  replaced (the replacement used by the source is the empty string, which has no
  special replacement patterns).
\<close>

fun replace_first :: "string \<Rightarrow> string \<Rightarrow> string \<Rightarrow> string" where
  "replace_first pat rep [] = (if pat = [] then rep else [])"
| "replace_first pat rep (c # cs) =
     (if prefix pat (c # cs) then rep @ drop (length pat) (c # cs)
      else c # replace_first pat rep cs)"

text \<open>Decimal digits of a natural number, as a template literal prints \<^verbatim>\<open>Date.now()\<close>.\<close>

definition digit_char :: "nat \<Rightarrow> char" where
  "digit_char d = char_of (48 + d)"

function show_nat :: "nat \<Rightarrow> string" where
  "show_nat n = (if n < 10 then [digit_char n] else show_nat (n div 10) @ [digit_char (n mod 10)])"
  by pat_completeness auto
termination
  by (relation "measure (\<lambda>n. n)") auto

declare show_nat.simps [simp del]


section \<open>The \<^verbatim>\<open>path\<close> module (POSIX flavour)\<close>

text \<open>
  \<^verbatim>\<open>path.join\<close>, \<^verbatim>\<open>path.extname\<close> and \<^verbatim>\<open>path.basename\<close> belong to Node.js. They are
  modelled after Node's POSIX implementation: a path is cut at \<^verbatim>\<open>/\<close>, empty segments and
  \<^verbatim>\<open>.\<close> are dropped, \<^verbatim>\<open>..\<close> removes the segment before it (at the root of an absolute
  path it is dropped, at the start of a relative path it is kept).
\<close>

text \<open>
  \<open>normalizeString\<close>: the segments seen so far are kept in reverse order in \<open>acc\<close>;
  \<open>allow\<close> is Node's \<open>allowAboveRoot\<close>.
\<close>

fun normalizeString :: "bool \<Rightarrow> string list \<Rightarrow> string list \<Rightarrow> string list" where
  "normalizeString allow acc [] = rev acc"
| "normalizeString allow acc (s # ss) =
     (if s = [] \<or> s = ''.'' then normalizeString allow acc ss
      else if s = ''..'' then
        (case acc of
           [] \<Rightarrow> normalizeString allow (if allow then [''..''] else []) ss
         | a # acc' \<Rightarrow>
             if a \<noteq> ''..'' then normalizeString allow acc' ss
             else normalizeString allow (if allow then ''..'' # acc else acc) ss)
      else normalizeString allow (s # acc) ss)"

definition path_normalize :: "string \<Rightarrow> string" where
  "path_normalize p =
     (if p = [] then ''.''
      else
        let isAbsolute = (hd p = CHR ''/'');
            trailingSeparator = (last p = CHR ''/'');
            body = join_with ''/'' (normalizeString (\<not> isAbsolute) [] (split_on CHR ''/'' p))
        in if body = [] then
             (if isAbsolute then ''/'' else if trailingSeparator then ''./'' else ''.'')
           else (if isAbsolute then ''/'' else []) @ body @
                (if trailingSeparator then ''/'' else []))"

definition path_join :: "string list \<Rightarrow> string" where
  "path_join args =
     (let parts = filter (\<lambda>a. a \<noteq> []) args
      in if parts = [] then ''.'' else path_normalize (join_with ''/'' parts))"

text \<open>
  Two notions for reasoning about absolute paths: the segments that normalization
  leaves of a path, and the absolute path that a list of segments stands for.
\<close>

definition segs :: "string \<Rightarrow> string list" where
  "segs p = normalizeString False [] (split_on CHR ''/'' p)"

definition render :: "string list \<Rightarrow> bool \<Rightarrow> string" where
  "render S trailing =
     (if S = [] then ''/'' else ''/'' @ join_with ''/'' S @ (if trailing then ''/'' else []))"

text \<open>The last portion of a path: trailing separators are ignored.\<close>

definition strip_trailing_slashes :: "string \<Rightarrow> string" where
  "strip_trailing_slashes p = rev (dropWhile (\<lambda>c. c = CHR ''/'') (rev p))"

definition last_portion :: "string \<Rightarrow> string" where
  "last_portion p = last (split_on CHR ''/'' (strip_trailing_slashes p))"

text \<open>
  \<^verbatim>\<open>path.extname\<close>: from the last \<^verbatim>\<open>.\<close> of the last portion to its end; empty when
  there is no \<^verbatim>\<open>.\<close>, when the only \<^verbatim>\<open>.\<close> is the first character, or when the portion
  is \<^verbatim>\<open>..\<close>.
\<close>

definition extname :: "string \<Rightarrow> string" where
  "extname p =
     (let portion = last_portion p;
          ext = rev (takeWhile (\<lambda>c. c \<noteq> CHR ''.'') (rev portion))
      in if CHR ''.'' \<notin> set portion then []
         else if length ext + 1 = length portion then []
         else if portion = ''..'' then []
         else CHR ''.'' # ext)"

text \<open>
  \<^verbatim>\<open>path.basename(p, suffix)\<close>: the last portion, without \<open>suffix\<close> when the portion
  ends with it and is longer than it; the empty string when \<open>suffix\<close> is the whole of \<open>p\<close>.
\<close>

definition basename :: "string \<Rightarrow> string \<Rightarrow> string" where
  "basename p sfx =
     (let portion = last_portion p
      in if sfx \<noteq> [] \<and> sfx = p then []
         else if sfx \<noteq> [] \<and> suffix sfx portion \<and> sfx \<noteq> portion
           then take (length portion - length sfx) portion
         else portion)"


section \<open>The file system\<close>

text \<open>
  The file system maps absolute paths (without a trailing separator) to plain files,
  with their content, or directories. Links, permissions and the other reasons for
  which a system call can fail are outside the model.
\<close>

datatype node = File string | Dir

type_synonym filesystem = "string \<rightharpoonup> node"

datatype errno = ENOENT | EISDIR | ENOTDIR | EEXIST

record fs_error =
  code :: errno
  syscall :: string
  epath :: string

definition errno_name :: "errno \<Rightarrow> string" where
  "errno_name e = (case e of ENOENT \<Rightarrow> ''ENOENT'' | EISDIR \<Rightarrow> ''EISDIR''
                   | ENOTDIR \<Rightarrow> ''ENOTDIR'' | EEXIST \<Rightarrow> ''EEXIST'')"

definition errno_text :: "errno \<Rightarrow> string" where
  "errno_text e = (case e of ENOENT \<Rightarrow> ''no such file or directory''
                   | EISDIR \<Rightarrow> ''illegal operation on a directory''
                   | ENOTDIR \<Rightarrow> ''not a directory''
                   | EEXIST \<Rightarrow> ''file already exists'')"

text \<open>
  The \<^verbatim>\<open>message\<close> of the \<^verbatim>\<open>Error\<close> that Node builds for a failed system call:
  \<^verbatim>\<open>ENOENT: no such file or directory, unlink '/srv/public/b.txt'\<close>.
\<close>

definition error_message :: "fs_error \<Rightarrow> string" where
  "error_message e =
     errno_name (code e) @ '': '' @ errno_text (code e) @ '', '' @ syscall e @
     '' '' @ [CHR 0x27] @ epath e @ [CHR 0x27]"

text \<open>
  \<^verbatim>\<open>fs.promises.unlink(p)\<close>: removes the plain file at \<open>p\<close>; the promise is rejected
  when nothing is at \<open>p\<close> or when \<open>p\<close> is a directory. This decides which unlinks
  succeed and what the file system is afterwards. The runtime has more kinds of
  rejection, with other messages (a path with a NUL byte, a name that is too long, a
  trailing separator after a plain file, missing permissions); whatever is said below
  about the text of error messages is therefore stated for an arbitrary unlink, see
  \<open>app_delete_with\<close>.
\<close>

definition unlink :: "string \<Rightarrow> filesystem \<Rightarrow> fs_error + filesystem" where
  "unlink p fs =
     (case fs p of
        None \<Rightarrow> Inl \<lparr>code = ENOENT, syscall = ''unlink'', epath = p\<rparr>
      | Some Dir \<Rightarrow> Inl \<lparr>code = EISDIR, syscall = ''unlink'', epath = p\<rparr>
      | Some (File bytes) \<Rightarrow> Inr (fs(p := None)))"

text \<open>
  \<^verbatim>\<open>fs.mkdir(p, { recursive: true })\<close>: every ancestor of \<open>p\<close> and \<open>p\<close> itself become
  directories, from the root down; it fails at a plain file.
\<close>

fun mkdir_segments :: "string \<Rightarrow> string \<Rightarrow> string list \<Rightarrow> filesystem \<Rightarrow> fs_error option \<times> filesystem" where
  "mkdir_segments p cur [] fs = (None, fs)"
| "mkdir_segments p cur (s # ss) fs =
     (let d = cur @ ''/'' @ s
      in case fs d of
           Some (File bytes) \<Rightarrow>
             (Some \<lparr>code = (if ss = [] then EEXIST else ENOTDIR), syscall = ''mkdir'', epath = p\<rparr>, fs)
         | _ \<Rightarrow> mkdir_segments p d ss (fs(d \<mapsto> Dir)))"

definition mkdir_recursive :: "string \<Rightarrow> filesystem \<Rightarrow> fs_error option \<times> filesystem" where
  "mkdir_recursive p fs =
     mkdir_segments p [] (filter (\<lambda>s. s \<noteq> []) (split_on CHR ''/'' p)) fs"

definition writeFile :: "string \<Rightarrow> string \<Rightarrow> filesystem \<Rightarrow> fs_error + filesystem" where
  "writeFile p bytes fs =
     (case fs p of
        Some Dir \<Rightarrow> Inl \<lparr>code = EISDIR, syscall = ''open'', epath = p\<rparr>
      | _ \<Rightarrow> Inr (fs(p \<mapsto> File bytes)))"


section \<open>The application\<close>

text \<open>
  \<open>dirname\<close> is \<^verbatim>\<open>__dirname\<close>, the absolute directory of the compiled script,
  \<open>API_KEY\<close> is \<^verbatim>\<open>process.env.API_KEY\<close> and \<open>NODE_ENV\<close> is \<^verbatim>\<open>process.env.NODE_ENV\<close>
  (\<open>None\<close> when a variable is not set). \<open>error_stack m\<close> is the \<^verbatim>\<open>stack\<close> property that
  the runtime gives the \<^verbatim>\<open>Error\<close> with message \<open>m\<close> with which a storing of files
  fails: its text is the runtime's and is not fixed here.
\<close>

record config =
  dirname :: string
  API_KEY :: "string option"
  NODE_ENV :: "string option"
  error_stack :: "string \<Rightarrow> string"

text \<open>
  A query parameter as Express parses it: absent, one string, or an array of strings
  (a repeated parameter). Object-valued parameters are outside the model.
\<close>

datatype query_value = QUndefined | QString string | QArray "string list"

record file_part =
  part_name :: string
  part_bytes :: string

text \<open>
  The parts of a request that the application reads. \<open>file_parts\<close> are the files of the
  multipart field \<^verbatim>\<open>files\<close>, in arrival order; \<open>body_path\<close> is \<^verbatim>\<open>req.body.path\<close> as
  the destination callback sees it.
\<close>

record request =
  x_api_key :: "string option"
  is_multipart :: bool
  file_parts :: "file_part list"
  body_path :: "string option"
  query_path :: "string option"
  query_filenames :: query_value

record multer_file =
  file_originalname :: string
  file_filename :: string
  file_destination :: string
  file_path :: string

record stored_file =
  originalname :: string
  filename :: string
  path :: string

text \<open>
  What a request ends with: a JSON response built by the application
  (\<^verbatim>\<open>res.status(n).json({message, errors, files})\<close>), or the HTML page of the default
  error handler of Express, given by its status and the text that it shows.
\<close>

datatype reply =
    Json (status: nat) (message: string) (errors: "string list option")
      (files: "stored_file list option")
  | ErrorPage nat string

text \<open>
  The default error handler of Express answers an error that reaches it through
  \<^verbatim>\<open>next(err)\<close>. The errors of this application carry no status, so the status is 500.
  The page shows \<^verbatim>\<open>err.stack\<close> (or \<^verbatim>\<open>err.toString()\<close> when the stack is empty), except
  in the production environment, where it shows the text of the status only.
\<close>

definition default_error_handler :: "config \<Rightarrow> string \<Rightarrow> reply" where
  "default_error_handler cfg msg =
     ErrorPage 500
       (if NODE_ENV cfg = Some ''production'' then ''Internal Server Error''
        else if error_stack cfg msg = [] then ''Error: '' @ msg
        else error_stack cfg msg)"

subsection \<open>The API key gate\<close>

text \<open>JavaScript's \<^verbatim>\<open>!v\<close> for a value that is a string or \<^verbatim>\<open>undefined\<close>.\<close>

definition falsy :: "string option \<Rightarrow> bool" where
  "falsy v = (v = None \<or> v = Some [])"

definition forbidden :: reply where
  "forbidden = Json 403 ''Forbidden: Invalid API Key'' None None"

text \<open>
  \<^verbatim>\<open>validateApiKey\<close>: \<open>next\<close> is the rest of the middleware chain; it runs only when
  the gate calls it.
\<close>

definition validateApiKey ::
  "config \<Rightarrow> request \<Rightarrow> (filesystem \<Rightarrow> reply \<times> filesystem) \<Rightarrow> filesystem \<Rightarrow> reply \<times> filesystem" where
  "validateApiKey cfg req next fs =
     (let apiKey = x_api_key req
      in if falsy apiKey \<or> apiKey \<noteq> API_KEY cfg then (forbidden, fs) else next fs)"

subsection \<open>The disk storage callbacks\<close>

text \<open>\<^verbatim>\<open>a || d\<close> for a string or \<^verbatim>\<open>undefined\<close> on the left.\<close>

definition or_else :: "string option \<Rightarrow> string \<Rightarrow> string" where
  "or_else v d = (case v of None \<Rightarrow> d | Some s \<Rightarrow> if s = [] then d else s)"

definition userPath :: "request \<Rightarrow> string" where
  "userPath req = or_else (body_path req) (or_else (query_path req) [])"

definition uploadPath :: "config \<Rightarrow> string \<Rightarrow> string" where
  "uploadPath cfg normalized = path_join [dirname cfg, ''../public/uploads'', normalized]"

text \<open>The second half of \<^verbatim>\<open>destination\<close>: join, then create the directory.\<close>

definition destination_dir :: "config \<Rightarrow> string \<Rightarrow> filesystem \<Rightarrow> (string + string) \<times> filesystem" where
  "destination_dir cfg normalized fs =
     (case mkdir_recursive (uploadPath cfg normalized) fs of
        (Some err, fs') \<Rightarrow> (Inl ''Failed to create directory.'', fs')
      | (None, fs') \<Rightarrow> (Inr (uploadPath cfg normalized), fs'))"

definition storage_destination :: "config \<Rightarrow> request \<Rightarrow> filesystem \<Rightarrow> (string + string) \<times> filesystem" where
  "storage_destination cfg req fs = destination_dir cfg (normalizedPath (userPath req)) fs"

text \<open>\<^verbatim>\<open>filename\<close>: \<open>now\<close> is the value of \<^verbatim>\<open>Date.now()\<close>.\<close>

definition storage_filename :: "nat \<Rightarrow> string \<Rightarrow> string" where
  "storage_filename now original =
     (let extension = extname original;
          originalName = replace_runs not_alnum ''-'' (basename original extension)
      in show_nat now @ ''-'' @ originalName @ extension)"

subsection \<open>The upload endpoint\<close>

text \<open>
  \<^verbatim>\<open>upload.array("files")\<close> belongs to multer. For a request that is not multipart it
  calls \<open>next\<close> and leaves \<^verbatim>\<open>req.files\<close> undefined. Otherwise \<^verbatim>\<open>req.files\<close> starts as
  the empty array, and the file parts are taken in turn. A part without a file name is
  skipped. Any other part is stored: destination, filename, write to the joined path,
  append to \<^verbatim>\<open>req.files\<close>. \<open>clock i\<close> is the reading of \<^verbatim>\<open>Date.now()\<close> at the \<open>i\<close>-th
  call of the filename callback. When a callback or the write fails, multer removes the
  files that it has stored for this request and ends it with \<^verbatim>\<open>next(err)\<close>, which
  brings the error to the default error handler.
\<close>

fun remove_files :: "string list \<Rightarrow> filesystem \<Rightarrow> filesystem" where
  "remove_files [] fs = fs"
| "remove_files (p # ps) fs =
     remove_files ps (case unlink p fs of Inl err \<Rightarrow> fs | Inr fs' \<Rightarrow> fs')"

fun store_files ::
  "config \<Rightarrow> request \<Rightarrow> (nat \<Rightarrow> nat) \<Rightarrow> nat \<Rightarrow> multer_file list \<Rightarrow> file_part list
     \<Rightarrow> filesystem \<Rightarrow> (string + multer_file list) \<times> filesystem" where
  "store_files cfg req clock i uploaded [] fs = (Inr uploaded, fs)"
| "store_files cfg req clock i uploaded (f # rest) fs =
     (if part_name f = [] then store_files cfg req clock i uploaded rest fs
      else
        (case storage_destination cfg req fs of
           (Inl e, fs1) \<Rightarrow> (Inl e, remove_files (map file_path uploaded) fs1)
         | (Inr dir, fs1) \<Rightarrow>
             (let name = storage_filename (clock i) (part_name f);
                  p = path_join [dir, name]
              in (case writeFile p (part_bytes f) fs1 of
                    Inl e \<Rightarrow>
                      (Inl (error_message e), remove_files (map file_path uploaded) fs1)
                  | Inr fs2 \<Rightarrow>
                      store_files cfg req clock (Suc i)
                        (uploaded @ [\<lparr>file_originalname = part_name f, file_filename = name,
                                       file_destination = dir, file_path = p\<rparr>])
                        rest fs2))))"

definition upload_array ::
  "config \<Rightarrow> request \<Rightarrow> (nat \<Rightarrow> nat) \<Rightarrow> (multer_file list option \<Rightarrow> filesystem \<Rightarrow> reply \<times> filesystem)
     \<Rightarrow> filesystem \<Rightarrow> reply \<times> filesystem" where
  "upload_array cfg req clock next fs =
     (if \<not> is_multipart req then next None fs
      else case store_files cfg req clock 0 [] (file_parts req) fs of
             (Inl e, fs') \<Rightarrow> (default_error_handler cfg e, fs')
           | (Inr stored, fs') \<Rightarrow> next (Some stored) fs')"

text \<open>
  The handler of \<^verbatim>\<open>POST /upload\<close>; \<open>req_files\<close> is \<^verbatim>\<open>req.files\<close>, \<open>None\<close> when it is
  undefined.
\<close>

definition upload_handler :: "config \<Rightarrow> multer_file list option \<Rightarrow> reply" where
  "upload_handler cfg req_files =
     (case req_files of
        None \<Rightarrow> Json 400 ''No files were uploaded.'' None None
      | Some fls \<Rightarrow>
          Json 200 ''Files uploaded successfully.'' None
            (Some (map (\<lambda>file.
               \<lparr>originalname = file_originalname file,
                filename = file_filename file,
                path = replace_first (path_join [dirname cfg, ''../public'']) [] (file_path file)\<rparr>)
               fls)))"

definition app_post_upload :: "config \<Rightarrow> (nat \<Rightarrow> nat) \<Rightarrow> request \<Rightarrow> filesystem \<Rightarrow> reply \<times> filesystem" where
  "app_post_upload cfg clock req fs =
     validateApiKey cfg req
       (upload_array cfg req clock (\<lambda>req_files fs'. (upload_handler cfg req_files, fs'))) fs"

subsection \<open>The delete endpoint\<close>

text \<open>\<^verbatim>\<open>!filenames\<close>: true for a missing parameter and for the empty string.\<close>

definition filenames_missing :: "query_value \<Rightarrow> bool" where
  "filenames_missing q = (case q of QUndefined \<Rightarrow> True | QString s \<Rightarrow> s = [] | QArray xs \<Rightarrow> False)"

definition filesArray :: "query_value \<Rightarrow> string list" where
  "filesArray q = (case q of QArray xs \<Rightarrow> xs | QString s \<Rightarrow> split_on CHR '','' s | QUndefined \<Rightarrow> [])"

text \<open>\<^verbatim>\<open>path.join(__dirname, "../public", String(filename))\<close>\<close>

definition filePath :: "config \<Rightarrow> string \<Rightarrow> string" where
  "filePath cfg fname = path_join [dirname cfg, ''../public'', fname]"

text \<open>
  \<^verbatim>\<open>Promise.all(files.map(p => fs.promises.unlink(p).catch(err => err)))\<close>: one unlink
  per path, each with its own \<^verbatim>\<open>catch\<close>, so a rejected unlink becomes the value of
  its promise. The result for a path is \<open>None\<close> (the unlink resolved) or the error. The
  unlinks are taken in the order of the list.
\<close>

fun unlink_all :: "string list \<Rightarrow> filesystem \<Rightarrow> fs_error option list \<times> filesystem" where
  "unlink_all [] fs = ([], fs)"
| "unlink_all (p # ps) fs =
     (case unlink p fs of
        Inl err \<Rightarrow> (let (rs, fs') = unlink_all ps fs in (Some err # rs, fs'))
      | Inr fs1 \<Rightarrow> (let (rs, fs') = unlink_all ps fs1 in (None # rs, fs')))"

text \<open>\<^verbatim>\<open>results.filter(result => result instanceof Error)\<close>\<close>

fun errors_of :: "fs_error option list \<Rightarrow> fs_error list" where
  "errors_of [] = []"
| "errors_of (None # rs) = errors_of rs"
| "errors_of (Some e # rs) = e # errors_of rs"

definition delete_response :: "fs_error option list \<Rightarrow> reply" where
  "delete_response results =
     (let errs = errors_of results
      in if length errs > 0
         then Json 500 ''Error deleting files.'' (Some (map error_message errs)) None
         else Json 200 ''Files deleted successfully.'' None None)"

definition delete_handler :: "config \<Rightarrow> request \<Rightarrow> filesystem \<Rightarrow> reply \<times> filesystem" where
  "delete_handler cfg req fs =
     (let filenames = query_filenames req
      in if filenames_missing filenames
         then (Json 400 ''Filenames are required.'' None None, fs)
         else
           let fls = map (filePath cfg) (filesArray filenames);
               (results, fs') = unlink_all fls fs
           in (delete_response results, fs'))"

definition app_delete :: "config \<Rightarrow> request \<Rightarrow> filesystem \<Rightarrow> reply \<times> filesystem" where
  "app_delete cfg req fs = validateApiKey cfg req (delete_handler cfg req) fs"

text \<open>
  The delete endpoint once more, with the unlink of the runtime left open: \<open>u p fs\<close> is
  \<open>Inl m\<close> when the promise of \<^verbatim>\<open>fs.promises.unlink(p)\<close> is rejected with an \<^verbatim>\<open>Error\<close>
  whose \<^verbatim>\<open>message\<close> is \<open>m\<close>, and \<open>Inr\<close> of the new file system when it is fulfilled.
  The handler is the same, line by line; \<open>app_delete\<close> is the instance for \<open>unlink\<close>.
\<close>

fun unlink_all_with ::
  "(string \<Rightarrow> filesystem \<Rightarrow> string + filesystem) \<Rightarrow> string list \<Rightarrow> filesystem
     \<Rightarrow> string option list \<times> filesystem" where
  "unlink_all_with u [] fs = ([], fs)"
| "unlink_all_with u (p # ps) fs =
     (case u p fs of
        Inl m \<Rightarrow> (let (rs, fs') = unlink_all_with u ps fs in (Some m # rs, fs'))
      | Inr fs1 \<Rightarrow> (let (rs, fs') = unlink_all_with u ps fs1 in (None # rs, fs')))"

fun messages_of :: "string option list \<Rightarrow> string list" where
  "messages_of [] = []"
| "messages_of (None # rs) = messages_of rs"
| "messages_of (Some m # rs) = m # messages_of rs"

definition delete_handler_with ::
  "(string \<Rightarrow> filesystem \<Rightarrow> string + filesystem) \<Rightarrow> config \<Rightarrow> request \<Rightarrow> filesystem
     \<Rightarrow> reply \<times> filesystem" where
  "delete_handler_with u cfg req fs =
     (let filenames = query_filenames req
      in if filenames_missing filenames
         then (Json 400 ''Filenames are required.'' None None, fs)
         else
           let fls = map (filePath cfg) (filesArray filenames);
               (results, fs') = unlink_all_with u fls fs;
               errs = messages_of results
           in (if length errs > 0
               then Json 500 ''Error deleting files.'' (Some errs) None
               else Json 200 ''Files deleted successfully.'' None None, fs'))"

definition app_delete_with ::
  "(string \<Rightarrow> filesystem \<Rightarrow> string + filesystem) \<Rightarrow> config \<Rightarrow> request \<Rightarrow> filesystem
     \<Rightarrow> reply \<times> filesystem" where
  "app_delete_with u cfg req fs = validateApiKey cfg req (delete_handler_with u cfg req) fs"

text \<open>The unlink of the file system above, as a runtime unlink.\<close>

definition unlink_message :: "string \<Rightarrow> filesystem \<Rightarrow> string + filesystem" where
  "unlink_message p fs =
     (case unlink p fs of Inl err \<Rightarrow> Inl (error_message err) | Inr fs' \<Rightarrow> Inr fs')"


subsection \<open>Directories of the application\<close>

text \<open>
  The upload root is the directory that is served under \<^verbatim>\<open>/uploads\<close> and below which
  the destination callback stores files:
  \<^verbatim>\<open>path.join(__dirname, "../public/uploads")\<close>. The public directory is
  \<^verbatim>\<open>path.join(__dirname, "../public")\<close>, the prefix that the upload handler strips from
  a stored path.
\<close>

definition uploadRoot :: "config \<Rightarrow> string" where
  "uploadRoot cfg = path_join [dirname cfg, ''../public/uploads'']"

definition publicDir :: "config \<Rightarrow> string" where
  "publicDir cfg = path_join [dirname cfg, ''../public'']"


text \<open>
  The regular expression \<^verbatim>\<open>^\d+TAIL$\<close> for a literal \<open>tail\<close> that starts with a
  character other than a digit: one or more digits, then exactly \<open>tail\<close>.
\<close>

definition matches_digits_then :: "string \<Rightarrow> string \<Rightarrow> bool" where
  "matches_digits_then tail s = (takeWhile is_digit s \<noteq> [] \<and> dropWhile is_digit s = tail)"

subsection \<open>A sample deployment\<close>

definition sample_config :: config where
  "sample_config =
     \<lparr>dirname = ''/app/dist'', API_KEY = Some ''secret'', NODE_ENV = None,
      error_stack = (\<lambda>m. ''Error: '' @ m @ [CHR 0x0A] @ ''    at /app/dist/index.js:50:19'')\<rparr>"

definition sample_request :: request where
  "sample_request =
     \<lparr>x_api_key = Some ''secret'', is_multipart = True, file_parts = [],
      body_path = None, query_path = None, query_filenames = QUndefined\<rparr>"

definition sample_fs :: filesystem where
  "sample_fs = [''/app/public'' \<mapsto> Dir, ''/app/public/a.txt'' \<mapsto> File ''hello'']"

section \<open>The path normalizer\<close>

lemma set_replace_runs:
  "set (replace_runs cls rep s) \<subseteq> set rep \<union> {c \<in> set s. \<not> cls c}"
proof (induction cls rep s rule: replace_runs.induct)
  case (1 cls rep)
  show ?case by simp
next
  case (2 cls rep c cs)
  show ?case
  proof (cases "cls c")
    case True
    have "set (dropWhile cls cs) \<subseteq> set cs"
      by (auto dest: set_dropWhileD)
    with 2(1)[OF True] True show ?thesis by auto
  next
    case False
    with 2(2)[OF False] show ?thesis by auto
  qed
qed

lemma replace_runs_unchanged:
  "(\<And>c. c \<in> set s \<Longrightarrow> \<not> cls c) \<Longrightarrow> replace_runs cls rep s = s"
  by (induction s) auto

lemma lower_char_not_upper: "\<not> is_upper (lower_char c)"
  by (auto simp: lower_char_def is_upper_def is_upper_latin1_def Let_def)

lemma lower_char_fixed:
  "is_lower c \<or> is_digit c \<or> c = CHR ''/'' \<Longrightarrow> lower_char c = c"
  by (auto simp: lower_char_def is_upper_def is_upper_latin1_def is_lower_def is_digit_def Let_def)

lemma normalizedPath_chars:
  assumes "c \<in> set (normalizedPath s)"
  shows "is_lower c \<or> is_digit c \<or> c = CHR ''/''"
proof -
  from assms set_replace_runs[of not_alnum_slash "''/''" "toLowerCase s"]
  have "c = CHR ''/'' \<or> (c \<in> set (toLowerCase s) \<and> \<not> not_alnum_slash c)"
    by (auto simp: normalizedPath_def)
  moreover have "\<not> is_upper c" if "c \<in> set (toLowerCase s)"
    using that lower_char_not_upper by (auto simp: toLowerCase_def)
  ultimately show ?thesis
    by (auto simp: not_alnum_slash_def)
qed

lemma dot_not_kept: "\<not> (is_lower CHR ''.'' \<or> is_digit CHR ''.'' \<or> CHR ''.'' = CHR ''/'')"
  by (simp add: is_lower_def is_digit_def)

text \<open>
  Claim C1. For every input string, the normalized path consists of lower-case ASCII
  letters, ASCII digits and \<^verbatim>\<open>/\<close> only; in particular it contains no \<^verbatim>\<open>.\<close> and
  so no \<^verbatim>\<open>..\<close> token.
\<close>

theorem normalizedPath_charset:
  "(\<forall>c \<in> set (normalizedPath s). is_lower c \<or> is_digit c \<or> c = CHR ''/'')
   \<and> CHR ''.'' \<notin> set (normalizedPath s)
   \<and> \<not> sublist ''..'' (normalizedPath s)"
proof -
  have all: "\<forall>c \<in> set (normalizedPath s). is_lower c \<or> is_digit c \<or> c = CHR ''/''"
    using normalizedPath_chars by blast
  have nodot: "CHR ''.'' \<notin> set (normalizedPath s)"
    using normalizedPath_chars[of "CHR ''.''" s] dot_not_kept by blast
  have "\<not> sublist ''..'' (normalizedPath s)"
  proof
    assume "sublist ''..'' (normalizedPath s)"
    then have "set ''..'' \<subseteq> set (normalizedPath s)"
      by (rule set_mono_sublist)
    with nodot show False by simp
  qed
  with all nodot show ?thesis by blast
qed

lemma normalizedPath_eval: "normalizedPath ''Docs/../A b.C'' = ''docs///a/b/c''"
  by (simp add: normalizedPath_def toLowerCase_def lower_char_def is_upper_def
      is_upper_latin1_def not_alnum_slash_def is_lower_def is_digit_def char_of_eq_iff)

text \<open>The property of claim C1 at the input \<^verbatim>\<open>Docs/../A b.C\<close>.\<close>

theorem normalizedPath_charset_witness:
  "normalizedPath ''Docs/../A b.C'' = ''docs///a/b/c''
   \<and> list_all (\<lambda>c. is_lower c \<or> is_digit c \<or> c = CHR ''/'') (normalizedPath ''Docs/../A b.C'')
   \<and> CHR ''.'' \<notin> set (normalizedPath ''Docs/../A b.C'')
   \<and> \<not> sublist ''..'' (normalizedPath ''Docs/../A b.C'')"
  using normalizedPath_charset[of "''Docs/../A b.C''"] normalizedPath_eval
  by (simp add: list_all_iff)

text \<open>
  Claim C10. The normalizer is idempotent: normalizing a normalized path changes
  nothing.
\<close>

theorem normalizedPath_idempotent:
  "normalizedPath (normalizedPath s) = normalizedPath s"
proof -
  let ?n = "normalizedPath s"
  have keep: "is_lower c \<or> is_digit c \<or> c = CHR ''/''" if "c \<in> set ?n" for c
    using that by (rule normalizedPath_chars)
  have "toLowerCase ?n = ?n"
    unfolding toLowerCase_def using keep lower_char_fixed by (simp add: map_idI)
  moreover have "replace_runs not_alnum_slash ''/'' ?n = ?n"
    by (rule replace_runs_unchanged) (use keep in \<open>auto simp: not_alnum_slash_def\<close>)
  ultimately show ?thesis
    by (simp add: normalizedPath_def[of ?n])
qed


text \<open>Claim C10 at the input \<^verbatim>\<open>Docs/../A b.C\<close>.\<close>

theorem normalizedPath_idempotent_witness:
  "normalizedPath (normalizedPath ''Docs/../A b.C'') = ''docs///a/b/c''"
  using normalizedPath_idempotent[of "''Docs/../A b.C''"] normalizedPath_eval by simp

section \<open>The API key gate\<close>

text \<open>
  Claim C5. A request to \<^verbatim>\<open>/upload\<close> or \<^verbatim>\<open>/delete\<close> whose \<^verbatim>\<open>x-api-key\<close> header is
  absent or differs from the configured key is answered with 403, and the file system
  stays as it was. The third conjunct holds for every continuation \<open>next\<close>: the gate
  does not run it.
\<close>

theorem invalid_key_forbidden:
  assumes "x_api_key req = None \<or> x_api_key req \<noteq> API_KEY cfg"
  shows "app_post_upload cfg clock req fs = (Json 403 ''Forbidden: Invalid API Key'' None None, fs)
       \<and> app_delete cfg req fs = (Json 403 ''Forbidden: Invalid API Key'' None None, fs)
       \<and> validateApiKey cfg req next fs = (Json 403 ''Forbidden: Invalid API Key'' None None, fs)"
  using assms
  by (auto simp: app_post_upload_def app_delete_def validateApiKey_def falsy_def forbidden_def)

text \<open>
  Claim C5 on the sample deployment: an upload and a delete with a key of the wrong
  letter case, and a delete without the header.
\<close>

theorem invalid_key_forbidden_witness:
  "app_post_upload sample_config (\<lambda>i. 1700000000000 + i)
     (sample_request\<lparr>x_api_key := Some ''Secret'',
        file_parts := [\<lparr>part_name = ''a.txt'', part_bytes = ''new''\<rparr>]\<rparr>) sample_fs
     = (Json 403 ''Forbidden: Invalid API Key'' None None, sample_fs)
   \<and> app_delete sample_config
     (sample_request\<lparr>x_api_key := Some ''Secret'', query_filenames := QString ''a.txt''\<rparr>) sample_fs
     = (Json 403 ''Forbidden: Invalid API Key'' None None, sample_fs)
   \<and> app_delete sample_config
     (sample_request\<lparr>x_api_key := None, query_filenames := QString ''a.txt''\<rparr>) sample_fs
     = (Json 403 ''Forbidden: Invalid API Key'' None None, sample_fs)"
  using invalid_key_forbidden[of "sample_request\<lparr>x_api_key := Some ''Secret'',
        file_parts := [\<lparr>part_name = ''a.txt'', part_bytes = ''new''\<rparr>]\<rparr>" sample_config]
    invalid_key_forbidden[of "sample_request\<lparr>x_api_key := Some ''Secret'', query_filenames := QString ''a.txt''\<rparr>" sample_config]
    invalid_key_forbidden[of "sample_request\<lparr>x_api_key := None, query_filenames := QString ''a.txt''\<rparr>" sample_config]
  by (simp add: sample_config_def sample_request_def)

section \<open>The upload endpoint\<close>

text \<open>
  Claim C3 asks for a 400 response when an upload holds no file. The handler tests
  only whether \<^verbatim>\<open>req.files\<close> is missing or not an array. For a multipart request
  without a file part \<^verbatim>\<open>req.files\<close> is the empty array, and the request is answered
  with 200 and an empty list of files. The file system is left alone.
\<close>

theorem upload_without_files_succeeds:
  "app_post_upload sample_config (\<lambda>i. 1700000000000 + i) sample_request sample_fs =
     (Json 200 ''Files uploaded successfully.'' None (Some []), sample_fs)"
  by (simp add: app_post_upload_def validateApiKey_def upload_array_def upload_handler_def
      sample_request_def sample_config_def falsy_def)

section \<open>The delete endpoint\<close>

lemmas path_eval = path_join_def path_normalize_def Let_def

lemma filePath_a: "filePath sample_config ''a.txt'' = ''/app/public/a.txt''"
  by (simp add: filePath_def sample_config_def path_eval)

lemma filePath_b: "filePath sample_config ''b.txt'' = ''/app/public/b.txt''"
  by (simp add: filePath_def sample_config_def path_eval)

lemma errors_of_filter: "errors_of results = map the (filter (\<lambda>r. r \<noteq> None) results)"
  by (induction results rule: errors_of.induct) auto

lemma errors_of_empty: "errors_of results = [] \<longleftrightarrow> (\<forall>r \<in> set results. r = None)"
  by (induction results rule: errors_of.induct) auto

text \<open>A request that passes the gate and names files runs one unlink per candidate.\<close>

lemma app_delete_accepted:
  assumes "\<not> falsy (x_api_key req)" and "x_api_key req = API_KEY cfg"
    and "\<not> filenames_missing (query_filenames req)"
  shows "app_delete cfg req fs =
    (delete_response (fst (unlink_all (map (filePath cfg) (filesArray (query_filenames req))) fs)),
     snd (unlink_all (map (filePath cfg) (filesArray (query_filenames req))) fs))"
  using assms
  by (simp add: app_delete_def validateApiKey_def delete_handler_def Let_def split_def)

lemma unlink_sample_ab:
  "unlink_all (map (filePath sample_config) (filesArray (QString ''a.txt,b.txt''))) sample_fs =
     ([None, Some \<lparr>code = ENOENT, syscall = ''unlink'', epath = ''/app/public/b.txt''\<rparr>],
      [''/app/public'' \<mapsto> Dir])"
  by (simp add: filesArray_def filePath_a filePath_b unlink_def sample_fs_def)

lemma unlink_sample_a:
  "unlink_all (map (filePath sample_config) (filesArray (QString ''a.txt''))) sample_fs =
     ([None], [''/app/public'' \<mapsto> Dir])"
  by (simp add: filesArray_def filePath_a unlink_def sample_fs_def)

text \<open>
  Claim C8. \<open>results\<close> are the outcomes of the unlinks of an accepted delete request,
  one per path. If at least one of them is an error, the response is 500 and lists the
  message of every error, in the order of the paths; if none is, the response is 200.
\<close>

theorem delete_aggregation:
  assumes "\<not> falsy (x_api_key req)" and "x_api_key req = API_KEY cfg"
    and "\<not> filenames_missing (query_filenames req)"
    and "results = fst (unlink_all (map (filePath cfg) (filesArray (query_filenames req))) fs)"
  shows "((\<exists>e. Some e \<in> set results) \<longrightarrow>
            fst (app_delete cfg req fs) =
              Json 500 ''Error deleting files.''
                (Some (map (\<lambda>r. error_message (the r)) (filter (\<lambda>r. r \<noteq> None) results))) None)
       \<and> ((\<forall>r \<in> set results. r = None) \<longrightarrow>
            fst (app_delete cfg req fs) = Json 200 ''Files deleted successfully.'' None None)"
proof (intro conjI impI)
  have reply: "fst (app_delete cfg req fs) = delete_response results"
    using assms by (simp add: app_delete_accepted)
  {
    assume "\<exists>e. Some e \<in> set results"
    then have "errors_of results \<noteq> []"
      by (auto simp: errors_of_empty)
    then show "fst (app_delete cfg req fs) =
          Json 500 ''Error deleting files.''
            (Some (map (\<lambda>r. error_message (the r)) (filter (\<lambda>r. r \<noteq> None) results))) None"
      by (simp add: reply delete_response_def Let_def errors_of_filter comp_def)
  next
    assume "\<forall>r \<in> set results. r = None"
    then have "errors_of results = []"
      by (simp add: errors_of_empty)
    then show "fst (app_delete cfg req fs) = Json 200 ''Files deleted successfully.'' None None"
      by (simp add: reply delete_response_def)
  }
qed

text \<open>
  Claim C8 on the sample deployment, where \<^verbatim>\<open>a.txt\<close> is in the public directory and
  \<^verbatim>\<open>b.txt\<close> is not: deleting both gives 500 with the one error, deleting \<^verbatim>\<open>a.txt\<close>
  alone gives 200.
\<close>

theorem delete_aggregation_witness:
  "fst (app_delete sample_config (sample_request\<lparr>query_filenames := QString ''a.txt,b.txt''\<rparr>) sample_fs)
     = Json 500 ''Error deleting files.''
         (Some [''ENOENT: no such file or directory, unlink '' @ [CHR 0x27] @ ''/app/public/b.txt'' @ [CHR 0x27]])
         None
   \<and> fst (app_delete sample_config (sample_request\<lparr>query_filenames := QString ''a.txt''\<rparr>) sample_fs)
     = Json 200 ''Files deleted successfully.'' None None"
proof -
  let ?ab = "sample_request\<lparr>query_filenames := QString ''a.txt,b.txt''\<rparr>"
  let ?a = "sample_request\<lparr>query_filenames := QString ''a.txt''\<rparr>"
  have key: "\<not> falsy (x_api_key ?ab)" "x_api_key ?ab = API_KEY sample_config"
    "\<not> falsy (x_api_key ?a)" "x_api_key ?a = API_KEY sample_config"
    by (simp_all add: sample_request_def sample_config_def falsy_def)
  have present: "\<not> filenames_missing (query_filenames ?ab)"
    "\<not> filenames_missing (query_filenames ?a)"
    by (simp_all add: filenames_missing_def)
  have ab: "[None, Some \<lparr>code = ENOENT, syscall = ''unlink'', epath = ''/app/public/b.txt''\<rparr>] =
      fst (unlink_all (map (filePath sample_config) (filesArray (query_filenames ?ab))) sample_fs)"
    by (simp add: unlink_sample_ab)
  have a: "[None] =
      fst (unlink_all (map (filePath sample_config) (filesArray (query_filenames ?a))) sample_fs)"
    by (simp add: unlink_sample_a)
  from delete_aggregation[OF key(1,2) present(1) ab] delete_aggregation[OF key(3,4) present(2) a]
  show ?thesis
    by (simp add: error_message_def errno_name_def errno_text_def)
qed

section \<open>Stored file names\<close>

lemma digit_char_is_digit: "d < 10 \<Longrightarrow> is_digit (digit_char d)"
  by (simp add: is_digit_def digit_char_def Let_def)

lemma show_nat_digits: "\<forall>c \<in> set (show_nat n). is_digit c"
proof (induction n rule: show_nat.induct)
  case (1 n)
  show ?case
  proof (cases "n < 10")
    case True
    then show ?thesis
      by (subst show_nat.simps) (simp add: digit_char_is_digit)
  next
    case False
    with 1 show ?thesis
      by (subst show_nat.simps) (simp add: digit_char_is_digit)
  qed
qed

lemma show_nat_nonempty: "show_nat n \<noteq> []"
  by (subst show_nat.simps) simp

lemma extname_sample: "extname ''My File.PNG'' = ''.PNG''"
  by (simp add: extname_def last_portion_def strip_trailing_slashes_def Let_def)

lemma basename_sample: "basename ''My File.PNG'' ''.PNG'' = ''My File''"
  by (simp add: basename_def last_portion_def strip_trailing_slashes_def Let_def suffix_def)

lemma storage_filename_sample:
  "storage_filename now ''My File.PNG'' = show_nat now @ ''-My-File.PNG''"
  by (simp add: storage_filename_def extname_sample basename_sample
      not_alnum_def is_lower_def is_upper_def is_digit_def)

lemma digits_then_split:
  assumes "\<not> is_digit c"
  shows "takeWhile is_digit (show_nat n @ c # cs) = show_nat n"
    and "dropWhile is_digit (show_nat n @ c # cs) = c # cs"
  using assms show_nat_digits[of n]
  by (simp_all add: takeWhile_append2 dropWhile_append2)

lemma dash_not_digit: "\<not> is_digit CHR ''-''"
  by (simp add: is_digit_def)

text \<open>
  Claim C6, as the code has it. For the original name \<^verbatim>\<open>My File.PNG\<close> the stored name
  matches \<^verbatim>\<open>^\d+-My-File\.PNG$\<close>: the run of non-alphanumerics in the base becomes one
  \<^verbatim>\<open>-\<close>, the letters of the base keep their case, and the extension is kept as it is.
\<close>

theorem filename_keeps_letter_case:
  "matches_digits_then ''-My-File.PNG'' (storage_filename now ''My File.PNG'')"
  by (simp add: storage_filename_sample matches_digits_then_def digits_then_split dash_not_digit
      show_nat_nonempty)

text \<open>
  Claim C6 as stated expects the lower-cased base \<^verbatim>\<open>my-file\<close>; the stored name
  does not match \<^verbatim>\<open>^\d+-my-file\.PNG$\<close>.
\<close>

theorem filename_not_lowercased:
  "\<not> matches_digits_then ''-my-file.PNG'' (storage_filename 1700000000000 ''My File.PNG'')"
  by (simp add: storage_filename_sample matches_digits_then_def digits_then_split dash_not_digit)

lemma show_nat_eval: "show_nat 1700000000000 = ''1700000000000''"
  by (simp add: show_nat.simps digit_char_def char_of_eq_iff)

text \<open>The stored name of \<^verbatim>\<open>My File.PNG\<close> at the time 1700000000000.\<close>

theorem filename_keeps_letter_case_witness:
  "storage_filename 1700000000000 ''My File.PNG'' = ''1700000000000-My-File.PNG''
   \<and> matches_digits_then ''-My-File.PNG'' ''1700000000000-My-File.PNG''"
  using filename_keeps_letter_case[of 1700000000000]
  by (simp add: storage_filename_sample show_nat_eval)

section \<open>Independent deletions\<close>

lemma unlink_all_length: "length (fst (unlink_all ps fs)) = length ps"
  by (induction ps arbitrary: fs) (auto simp: split_def Let_def split: sum.splits)

lemma unlink_all_final:
  "snd (unlink_all ps fs) =
     (\<lambda>p. if p \<in> set ps \<and> (\<exists>bytes. fs p = Some (File bytes)) then None else fs p)"
proof (induction ps arbitrary: fs)
  case Nil
  show ?case by simp
next
  case (Cons q ps)
  show ?case
  proof (cases "unlink q fs")
    case (Inl err)
    then have "\<not> (\<exists>bytes. fs q = Some (File bytes))"
      by (auto simp: unlink_def split: option.splits node.splits)
    with Inl Cons show ?thesis
      by (auto simp: split_def Let_def fun_eq_iff)
  next
    case (Inr fs1)
    then have "fs1 = fs(q := None)" and "\<exists>bytes. fs q = Some (File bytes)"
      by (auto simp: unlink_def split: option.splits node.splits)
    with Inr Cons show ?thesis
      by (auto simp: split_def Let_def fun_eq_iff)
  qed
qed

text \<open>
  Claim C7. An accepted delete request attempts every path: afterwards the file system
  is the one before without every candidate that was a plain file, whether or not other
  paths of the request, earlier or later, failed.
\<close>

theorem delete_attempts_every_path:
  assumes "\<not> falsy (x_api_key req)" and "x_api_key req = API_KEY cfg"
    and "\<not> filenames_missing (query_filenames req)"
  shows "snd (app_delete cfg req fs) =
     (\<lambda>p. if p \<in> set (map (filePath cfg) (filesArray (query_filenames req)))
              \<and> (\<exists>bytes. fs p = Some (File bytes))
           then None else fs p)"
  using assms by (simp add: app_delete_accepted unlink_all_final)

lemma unlink_sample_ba:
  "unlink_all (map (filePath sample_config) (filesArray (QString ''b.txt,a.txt''))) sample_fs =
     ([Some \<lparr>code = ENOENT, syscall = ''unlink'', epath = ''/app/public/b.txt''\<rparr>, None],
      [''/app/public'' \<mapsto> Dir])"
  by (simp add: filesArray_def filePath_a filePath_b unlink_def sample_fs_def)

text \<open>
  Claim C7 on the sample deployment: \<^verbatim>\<open>a.txt\<close> is there and \<^verbatim>\<open>b.txt\<close> is not. With the
  failing \<^verbatim>\<open>b.txt\<close> first, the response reports its error and \<^verbatim>\<open>a.txt\<close> is gone
  afterwards; likewise in the other order.
\<close>

theorem delete_attempts_every_path_witness:
  "sample_fs ''/app/public/a.txt'' = Some (File ''hello'')
   \<and> sample_fs ''/app/public/b.txt'' = None
   \<and> fst (app_delete sample_config (sample_request\<lparr>query_filenames := QString ''b.txt,a.txt''\<rparr>) sample_fs)
       = Json 500 ''Error deleting files.''
          (Some [''ENOENT: no such file or directory, unlink '' @ [CHR 0x27] @ ''/app/public/b.txt'' @ [CHR 0x27]])
          None
   \<and> snd (app_delete sample_config (sample_request\<lparr>query_filenames := QString ''b.txt,a.txt''\<rparr>) sample_fs)
       ''/app/public/a.txt'' = None
   \<and> snd (app_delete sample_config (sample_request\<lparr>query_filenames := QString ''a.txt,b.txt''\<rparr>) sample_fs)
       ''/app/public/a.txt'' = None"
proof -
  let ?ba = "sample_request\<lparr>query_filenames := QString ''b.txt,a.txt''\<rparr>"
  let ?ab = "sample_request\<lparr>query_filenames := QString ''a.txt,b.txt''\<rparr>"
  have key: "\<not> falsy (x_api_key ?ba)" "x_api_key ?ba = API_KEY sample_config"
    "\<not> falsy (x_api_key ?ab)" "x_api_key ?ab = API_KEY sample_config"
    by (simp_all add: sample_request_def sample_config_def falsy_def)
  have present: "\<not> filenames_missing (query_filenames ?ba)"
    "\<not> filenames_missing (query_filenames ?ab)"
    by (simp_all add: filenames_missing_def)
  have before: "sample_fs ''/app/public/a.txt'' = Some (File ''hello'')"
    "sample_fs ''/app/public/b.txt'' = None"
    by (simp_all add: sample_fs_def)
  have reply: "fst (app_delete sample_config ?ba sample_fs)
       = Json 500 ''Error deleting files.''
          (Some [''ENOENT: no such file or directory, unlink '' @ [CHR 0x27] @ ''/app/public/b.txt'' @ [CHR 0x27]])
          None"
    using key(1,2) present(1)
    by (simp add: app_delete_accepted unlink_sample_ba delete_response_def error_message_def
        errno_name_def errno_text_def)
  have "snd (app_delete sample_config ?ba sample_fs) ''/app/public/a.txt'' = None"
    using delete_attempts_every_path[OF key(1,2) present(1), of sample_fs] before
    by (simp add: filesArray_def filePath_a filePath_b)
  moreover have "snd (app_delete sample_config ?ab sample_fs) ''/app/public/a.txt'' = None"
    using delete_attempts_every_path[OF key(3,4) present(2), of sample_fs] before
    by (simp add: filesArray_def filePath_a filePath_b)
  ultimately show ?thesis
    using before reply by simp
qed

section \<open>Properties of the path functions\<close>

subsection \<open>Splitting and joining\<close>

lemma split_on_nonempty: "split_on c s \<noteq> []"
  by (induction s) (auto split: list.splits)

lemma split_on_append: "split_on c (a @ c # b) = split_on c a @ split_on c b"
proof (induction a)
  case Nil
  show ?case by simp
next
  case (Cons x a)
  then show ?case
    using split_on_nonempty[of c a]
    by (cases "split_on c a") (auto split: list.splits)
qed

lemma split_on_no_sep: "x \<in> set (split_on c s) \<Longrightarrow> c \<notin> set x"
proof (induction s arbitrary: x)
  case Nil
  then show ?case by simp
next
  case (Cons a s)
  then show ?case
    by (cases "split_on c s") (auto split: if_splits)
qed


lemma split_on_plain: "c \<notin> set s \<Longrightarrow> split_on c s = [s]"
  by (induction s) auto

lemma split_on_join:
  "xs \<noteq> [] \<Longrightarrow> (\<And>x. x \<in> set xs \<Longrightarrow> c \<notin> set x) \<Longrightarrow> split_on c (join_with [c] xs) = xs"
proof (induction "[c]" xs rule: join_with.induct)
  case 1
  then show ?case by simp
next
  case (2 x)
  then show ?case by (simp add: split_on_plain)
next
  case (3 x y ys)
  then show ?case
    by (simp add: split_on_append split_on_plain)
qed

lemma join_with_empty_iff:
  "(\<And>x. x \<in> set xs \<Longrightarrow> x \<noteq> []) \<Longrightarrow> join_with sep xs = [] \<longleftrightarrow> xs = []"
  by (induction sep xs rule: join_with.induct) auto


lemma join_with_last_nonempty:
  "xs \<noteq> [] \<Longrightarrow> last xs \<noteq> [] \<Longrightarrow> join_with sep xs \<noteq> []"
  by (induction sep xs rule: join_with.induct) auto

lemma last_join_with:
  "xs \<noteq> [] \<Longrightarrow> last xs \<noteq> [] \<Longrightarrow> last (join_with sep xs) = last (last xs)"
proof (induction sep xs rule: join_with.induct)
  case (1 sep)
  then show ?case by simp
next
  case (2 sep x)
  then show ?case by simp
next
  case (3 sep x y ys)
  then have "join_with sep (y # ys) \<noteq> []"
    by (intro join_with_last_nonempty) auto
  with 3 show ?case by simp
qed


subsection \<open>Normalizing segments\<close>

lemma normalizeString_append:
  "normalizeString allow acc (xs @ ys) =
     normalizeString allow (rev (normalizeString allow acc xs)) ys"
  by (induction xs arbitrary: acc) (auto split: list.splits)

lemma normalizeString_plain:
  "(\<And>x. x \<in> set xs \<Longrightarrow> x \<noteq> ''.'' \<and> x \<noteq> ''..'') \<Longrightarrow>
     normalizeString allow acc xs = rev acc @ filter (\<lambda>x. x \<noteq> []) xs"
  by (induction xs arbitrary: acc) auto

lemma normalizeString_segments:
  "s \<in> set (normalizeString False acc xs) \<Longrightarrow>
     s \<in> set acc \<or> (s \<in> set xs \<and> s \<noteq> [] \<and> s \<noteq> ''.'' \<and> s \<noteq> ''..'')"
proof (induction xs arbitrary: acc)
  case Nil
  then show ?case by simp
next
  case (Cons x xs)
  show ?case
  proof (cases "x = [] \<or> x = ''.''")
    case True
    with Cons.prems Cons.IH[of acc] show ?thesis by auto
  next
    case False
    note plain = this
    show ?thesis
    proof (cases "x = ''..''")
      case True
      show ?thesis
      proof (cases acc)
        case Nil
        with True Cons.prems Cons.IH[of "[]"] show ?thesis by auto
      next
        case (Cons a acc')
        with True Cons.prems Cons.IH[of acc'] Cons.IH[of acc] show ?thesis
          by (auto split: if_splits)
      qed
    next
      case False
      with plain Cons.prems Cons.IH[of "x # acc"] show ?thesis by auto
    qed
  qed
qed

lemma segs_clean:
  assumes "s \<in> set (segs p)"
  shows "s \<noteq> []" and "s \<noteq> ''.''" and "s \<noteq> ''..''" and "CHR ''/'' \<notin> set s"
  using normalizeString_segments[of s "[]" "split_on CHR ''/'' p"] assms split_on_no_sep[of s "CHR ''/''" p]
  by (auto simp: segs_def)

lemma path_normalize_absolute: "path_normalize (CHR ''/'' # x) = render (segs (CHR ''/'' # x)) (last (CHR ''/'' # x) = CHR ''/'')"
proof -
  let ?p = "CHR ''/'' # x"
  have "join_with ''/'' (segs ?p) = [] \<longleftrightarrow> segs ?p = []"
    by (rule join_with_empty_iff) (rule segs_clean)
  moreover have "segs ?p = normalizeString False [] (split_on CHR ''/'' x)"
    by (simp add: segs_def)
  ultimately show ?thesis
    by (simp add: path_normalize_def render_def Let_def)
qed

lemma segs_render:
  assumes "\<And>s. s \<in> set S \<Longrightarrow> s \<noteq> [] \<and> s \<noteq> ''.'' \<and> s \<noteq> ''..'' \<and> CHR ''/'' \<notin> set s"
  shows "segs (render S trailing) = S"
proof (cases "S = []")
  case True
  then show ?thesis by (simp add: render_def segs_def)
next
  case False
  have split: "split_on CHR ''/'' (join_with ''/'' S) = S"
    using False assms by (intro split_on_join) auto
  have plain: "normalizeString False [] S = S"
    using assms by (subst normalizeString_plain) (auto simp: filter_id_conv)
  show ?thesis
  proof (cases trailing)
    case True
    have "split_on CHR ''/'' (join_with ''/'' S @ ''/'') = S @ [[]]"
      using split_on_append[of "CHR ''/''" "join_with ''/'' S" "[]"] split by simp
    with False True plain show ?thesis
      by (simp add: render_def segs_def normalizeString_append)
  next
    case no: False
    with False split plain show ?thesis
      by (simp add: render_def segs_def)
  qed
qed

lemma last_render:
  assumes "\<And>s. s \<in> set S \<Longrightarrow> s \<noteq> [] \<and> CHR ''/'' \<notin> set s"
  shows "last (render S trailing) = CHR ''/'' \<longleftrightarrow> S = [] \<or> trailing"
proof (cases "S = []")
  case True
  then show ?thesis by (simp add: render_def)
next
  case False
  then have l: "last S \<in> set S" by simp
  with assms have ne: "last S \<noteq> []" and ns: "CHR ''/'' \<notin> set (last S)" by auto
  have j: "join_with ''/'' S \<noteq> []"
    using False ne by (rule join_with_last_nonempty)
  have "last (join_with ''/'' S) = last (last S)"
    using False ne by (rule last_join_with)
  moreover have "last (last S) \<noteq> CHR ''/''"
    using ne ns last_in_set by metis
  ultimately show ?thesis
    using False j by (simp add: render_def)
qed

lemma render_absolute: "\<exists>r. render S trailing = CHR ''/'' # r"
  by (simp add: render_def)

lemma segs_path_normalize: "segs (path_normalize (CHR ''/'' # x)) = segs (CHR ''/'' # x)"
  unfolding path_normalize_absolute
  by (rule segs_render) (use segs_clean in blast)

text \<open>Joining an absolute path with a further, non-empty argument.\<close>

lemma path_normalize_joined:
  assumes "b \<noteq> []"
  shows "path_normalize ((CHR ''/'' # x) @ ''/'' @ b) =
     render (normalizeString False (rev (segs (CHR ''/'' # x))) (split_on CHR ''/'' b))
       (last b = CHR ''/'')"
proof -
  have "segs ((CHR ''/'' # x) @ ''/'' @ b) =
      normalizeString False (rev (segs (CHR ''/'' # x))) (split_on CHR ''/'' b)"
    using split_on_append[of "CHR ''/''" "CHR ''/'' # x" b]
    by (simp add: segs_def normalizeString_append del: split_on.simps)
  moreover have "last ((CHR ''/'' # x) @ ''/'' @ b) = last b"
    using assms by simp
  ultimately show ?thesis
    using path_normalize_absolute[of "x @ ''/'' @ b"] by simp
qed

lemma path_join_normalized_first:
  "path_join [path_normalize (CHR ''/'' # x), b] = path_join [CHR ''/'' # x, b]"
proof -
  let ?x = "CHR ''/'' # x"
  let ?P = "path_normalize ?x"
  obtain r where P: "?P = CHR ''/'' # r"
    using render_absolute path_normalize_absolute by metis
  show ?thesis
  proof (cases "b = []")
    case True
    have "path_normalize ?P = ?P"
    proof -
      have "path_normalize ?P = render (segs ?P) (last ?P = CHR ''/'')"
        using path_normalize_absolute[of r] P by simp
      also have "segs ?P = segs ?x"
        by (rule segs_path_normalize)
      also have "(last ?P = CHR ''/'') \<longleftrightarrow> (segs ?x = [] \<or> last ?x = CHR ''/'')"
        unfolding path_normalize_absolute
        by (rule last_render) (use segs_clean in blast)
      also have "render (segs ?x) (segs ?x = [] \<or> last ?x = CHR ''/'') = ?P"
        unfolding path_normalize_absolute by (auto simp: render_def)
      finally show ?thesis .
    qed
    with True P show ?thesis
      by (simp add: path_join_def)
  next
    case False
    have "path_normalize (?P @ ''/'' @ b) = path_normalize (?x @ ''/'' @ b)"
      using path_normalize_joined[OF False, of r] path_normalize_joined[OF False, of x]
        segs_path_normalize[of x] P by simp
    with False P show ?thesis
      by (simp add: path_join_def)
  qed
qed

section \<open>The directories of the application\<close>


lemma path_join2: "a \<noteq> [] \<Longrightarrow> b \<noteq> [] \<Longrightarrow> path_join [a, b] = path_normalize (a @ ''/'' @ b)"
  by (simp add: path_join_def)

lemma path_join3:
  "a \<noteq> [] \<Longrightarrow> b \<noteq> [] \<Longrightarrow> path_join [a, b, c] = path_join [a @ ''/'' @ b, c]"
  by (simp add: path_join_def)

lemma publicDir_absolute:
  "dirname cfg = CHR ''/'' # d \<Longrightarrow> publicDir cfg = path_normalize (CHR ''/'' # d @ ''/../public'')"
  by (simp add: publicDir_def path_join2)


lemma filePath_publicDir:
  assumes "dirname cfg = CHR ''/'' # d"
  shows "filePath cfg f = path_join [publicDir cfg, f]"
proof -
  have "filePath cfg f = path_join [CHR ''/'' # d @ ''/../public'', f]"
    using assms by (simp add: filePath_def path_join3)
  also have "\<dots> = path_join [path_normalize (CHR ''/'' # d @ ''/../public''), f]"
    by (rule path_join_normalized_first[symmetric])
  finally show ?thesis
    using assms by (simp add: publicDir_absolute)
qed

lemma uploadRoot_publicDir:
  assumes "dirname cfg = CHR ''/'' # d"
  shows "uploadRoot cfg = path_join [publicDir cfg, ''uploads'']"
proof -
  have "uploadRoot cfg = path_join [CHR ''/'' # d @ ''/../public'', ''uploads'']"
    using assms by (simp add: uploadRoot_def path_join_def)
  also have "\<dots> = path_join [path_normalize (CHR ''/'' # d @ ''/../public''), ''uploads'']"
    by (rule path_join_normalized_first[symmetric])
  finally show ?thesis
    using assms by (simp add: publicDir_absolute)
qed




lemma uploadRoot_sample: "uploadRoot sample_config = ''/app/public/uploads''"
  by (simp add: uploadRoot_def sample_config_def path_eval)






text \<open>
  Claim C2, as the code has it. The candidate of a delete request is the public
  directory, which is the parent of the upload root, joined with the path of the
  caller; an accepted request runs its unlinks on exactly these candidates.
\<close>

theorem delete_candidate_in_public_dir:
  assumes "dirname cfg = CHR ''/'' # d"
    and "\<not> falsy (x_api_key req)" and "x_api_key req = API_KEY cfg"
    and "\<not> filenames_missing (query_filenames req)"
  shows "uploadRoot cfg = path_join [publicDir cfg, ''uploads'']
       \<and> filePath cfg f = path_join [publicDir cfg, f]
       \<and> app_delete cfg req fs =
           (delete_response
              (fst (unlink_all (map (\<lambda>f. path_join [publicDir cfg, f]) (filesArray (query_filenames req))) fs)),
            snd (unlink_all (map (\<lambda>f. path_join [publicDir cfg, f]) (filesArray (query_filenames req))) fs))"
proof -
  have "filePath cfg = (\<lambda>f. path_join [publicDir cfg, f])"
    using filePath_publicDir[OF assms(1)] by (simp add: fun_eq_iff)
  then show ?thesis
    using uploadRoot_publicDir[OF assms(1)] app_delete_accepted[OF assms(2-4), of fs]
    by simp
qed

lemma publicDir_sample: "publicDir sample_config = ''/app/public''"
  by (simp add: publicDir_def sample_config_def path_eval)

lemma upload_root_a: "path_join [uploadRoot sample_config, ''a.txt''] = ''/app/public/uploads/a.txt''"
  by (simp add: uploadRoot_sample path_eval)

text \<open>
  Claim C2 as stated joins the upload root with the path. For \<^verbatim>\<open>a.txt\<close> that would be
  \<^verbatim>\<open>/app/public/uploads/a.txt\<close>; the handler tries \<^verbatim>\<open>/app/public/a.txt\<close>, reports
  that nothing is there, and the file in the upload root stays.
\<close>

theorem delete_candidate_not_in_upload_root:
  "path_join [uploadRoot sample_config, ''a.txt''] = ''/app/public/uploads/a.txt''
   \<and> filePath sample_config ''a.txt'' = ''/app/public/a.txt''
   \<and> app_delete sample_config (sample_request\<lparr>query_filenames := QString ''a.txt''\<rparr>)
        [''/app/public/uploads/a.txt'' \<mapsto> File ''hello'']
       = (Json 500 ''Error deleting files.''
            (Some [''ENOENT: no such file or directory, unlink '' @ [CHR 0x27] @ ''/app/public/a.txt'' @ [CHR 0x27]])
            None,
          [''/app/public/uploads/a.txt'' \<mapsto> File ''hello''])"
proof -
  let ?a = "sample_request\<lparr>query_filenames := QString ''a.txt''\<rparr>"
  have "\<not> falsy (x_api_key ?a)" "x_api_key ?a = API_KEY sample_config"
    "\<not> filenames_missing (query_filenames ?a)"
    by (simp_all add: sample_request_def sample_config_def falsy_def filenames_missing_def)
  then have "app_delete sample_config ?a [''/app/public/uploads/a.txt'' \<mapsto> File ''hello'']
       = (Json 500 ''Error deleting files.''
            (Some [''ENOENT: no such file or directory, unlink '' @ [CHR 0x27] @ ''/app/public/a.txt'' @ [CHR 0x27]])
            None,
          [''/app/public/uploads/a.txt'' \<mapsto> File ''hello''])"
    by (simp add: app_delete_accepted filesArray_def filePath_a unlink_def
        delete_response_def error_message_def errno_name_def errno_text_def)
  then show ?thesis
    using upload_root_a filePath_a by simp
qed

text \<open>
  Deleting with the path that the upload response reports, \<^verbatim>\<open>/uploads/a.txt\<close>, removes
  the file in the upload root.
\<close>

theorem delete_candidate_in_public_dir_witness:
  "publicDir sample_config = ''/app/public''
   \<and> uploadRoot sample_config = path_join [''/app/public'', ''uploads'']
   \<and> filePath sample_config ''/uploads/a.txt'' = path_join [''/app/public'', ''/uploads/a.txt'']
   \<and> app_delete sample_config (sample_request\<lparr>query_filenames := QString ''/uploads/a.txt''\<rparr>)
        [''/app/public/uploads/a.txt'' \<mapsto> File ''hello'']
       = (Json 200 ''Files deleted successfully.'' None None, Map.empty)"
proof -
  let ?a = "sample_request\<lparr>query_filenames := QString ''/uploads/a.txt''\<rparr>"
  have abs: "dirname sample_config = CHR ''/'' # ''app/dist''"
    by (simp add: sample_config_def)
  have key: "\<not> falsy (x_api_key ?a)" "x_api_key ?a = API_KEY sample_config"
    and present: "\<not> filenames_missing (query_filenames ?a)"
    by (simp_all add: sample_request_def sample_config_def falsy_def filenames_missing_def)
  have "path_join [''/app/public'', ''/uploads/a.txt''] = ''/app/public/uploads/a.txt''"
    by (simp add: path_eval)
  then show ?thesis
    using delete_candidate_in_public_dir[OF abs key present,
        of "''/uploads/a.txt''" "[''/app/public/uploads/a.txt'' \<mapsto> File ''hello'']"]
    by (simp add: publicDir_sample filesArray_def unlink_def delete_response_def)
qed

section \<open>Responses to failing requests\<close>

lemma messages_of_errors:
  "messages_of (map (map_option error_message) rs) = map error_message (errors_of rs)"
  by (induction rs rule: errors_of.induct) auto

lemma unlink_all_with_unlink:
  "unlink_all_with unlink_message ps fs =
     (map (map_option error_message) (fst (unlink_all ps fs)), snd (unlink_all ps fs))"
  by (induction ps arbitrary: fs)
     (auto simp: unlink_message_def split_def Let_def split: sum.splits)

text \<open>The endpoint over the file system above is an instance of the general one.\<close>

lemma app_delete_instance: "app_delete cfg req fs = app_delete_with unlink_message cfg req fs"
proof -
  have "delete_handler cfg req fs' = delete_handler_with unlink_message cfg req fs'" for fs'
    by (simp add: delete_handler_def delete_handler_with_def delete_response_def
        unlink_all_with_unlink messages_of_errors Let_def split_def)
  then have "delete_handler cfg req = delete_handler_with unlink_message cfg req"
    by (rule ext)
  then show ?thesis
    by (simp add: app_delete_def app_delete_with_def)
qed







end
